theory Spec2Isabelle
  imports Main "HOL-Library.Word"
begin

section \<open>idempLib: an idempotency middleware over a Redis key store\<close>

text \<open>
  The library has two parts. The repository (\<open>idempontencyRepoRedis\<close>) stores a token in
  Redis under the key made of \<open>req:\<close> and the token, with a time to live, and tests whether such a key
  exists. The HTTP middleware (\<open>MiddlewareIdempotency\<close>) looks at the method and at the
  \<open>Idempotency-Key\<close> header of a request, asks the repository, and either answers 200
  itself or stores the token and calls the next handler.

  Go values are modelled as follows: a Go \<open>string\<close> is a \<open>string\<close>; an interface value
  that may be \<open>nil\<close> (a \<open>trace.Tracer\<close>, a \<open>context.Context\<close>, an \<open>error\<close>) is an
  \<open>option\<close>; a function that may panic returns \<open>panic + 'a\<close>; \<open>time.Duration\<close> is a
  64-bit word read as a signed number of nanoseconds; everything a call changes outside
  its own variables (the Redis server, the spans recorded by the tracer, the requests
  handed to the next handler) is a field of the record \<open>world\<close>, passed in and returned.

  Names are those of the source, except where HOL has the name already: the parameter
  \<open>id\<close> is written \<open>id'\<close> or \<open>tok\<close>, the type \<open>context.Context\<close> is \<open>Context\<close>, the
  field \<open>Tracer\<close> of the repository is \<open>repoTracer\<close> (the handler has a field \<open>Tracer\<close>
  too), \<open>make\<close> is \<open>make_slice\<close>, and the constructor and the middleware of the second
  source file, which have the names of those of the first, carry the suffix \<open>_service\<close>.
\<close>

subsection \<open>Errors, panics and durations\<close>

datatype error = Err string

definition Error :: "error \<Rightarrow> string" where
  "Error e = (case e of Err msg \<Rightarrow> msg)"

datatype panic = IndexOutOfRange | NilDereference

type_synonym Duration = "64 word"

definition Nanosecond :: Duration where
  "Nanosecond = 1"

definition Second :: Duration where
  "Second = 1000000000 * Nanosecond"

definition Minute :: Duration where
  "Minute = 60 * Second"

definition tooManyArgumentsError :: "string \<Rightarrow> error" where
  "tooManyArgumentsError fnc = Err (fnc @ '' : you passed in to many argumants into this function'')"

subsection \<open>The collaborators: tracer, Redis server, next handler\<close>

datatype tracer = TracerImpl string

datatype Context = Background | WithSpan string Context

datatype span = Span string

datatype span_event = SpanStarted string "Context option" | SpanEnded string | SpanStatusError string string

datatype command = EXISTS string | SET string bool Duration

record entry =
  entry_value :: bool
  entry_deadline :: "int option"

record Request =
  Method :: string
  Header :: "string \<rightharpoonup> string list"

record world =
  kv :: "string \<rightharpoonup> entry"
  clock :: int
  reach :: "nat \<Rightarrow> bool"
  issued :: "command list"
  spans :: "span_event list"
  downstream :: "Request list"

text \<open>
  Modelled from the spec: the Redis server and the \<open>go-redis\<close> client are not part of the
  repository. The spec describes the backend as a key-value store with a plain existence
  check, whose records have an expiry after which they are logically absent, and which
  may be unavailable. The model: \<open>kv\<close> maps a key to its value and to the instant
  (\<open>clock\<close> units are nanoseconds) at which it expires, a key is present while the clock is
  before that instant; \<open>issued\<close> lists the commands sent so far, and the command number
  \<open>n\<close> (counted from 0) reaches the server iff \<open>reach n\<close>. A command that does not reach
  the server changes nothing there and comes back with an error and the zero value, as
  \<open>go-redis\<close> commands do. \<open>SET\<close> with a positive duration sets the expiry, with any
  other duration the key does not expire.
\<close>

definition live :: "world \<Rightarrow> string \<Rightarrow> bool" where
  "live w key =
     (case kv w key of
        None \<Rightarrow> False
      | Some e \<Rightarrow> (case entry_deadline e of None \<Rightarrow> True | Some d \<Rightarrow> clock w < d))"

definition advance :: "int \<Rightarrow> world \<Rightarrow> world" where
  "advance d w = w\<lparr>clock := clock w + d\<rparr>"

record Client =
  Addr :: string

record IntCmd =
  IntCmd_val :: int
  IntCmd_err :: "error option"

record StatusCmd =
  StatusCmd_val :: string
  StatusCmd_err :: "error option"

definition unreachable :: error where
  "unreachable = Err ''dial tcp: connection refused''"

definition cli_Exists :: "Client \<Rightarrow> string \<Rightarrow> world \<Rightarrow> IntCmd \<times> world" where
  "cli_Exists c key w =
     (let w' = w\<lparr>issued := issued w @ [EXISTS key]\<rparr> in
      if reach w (length (issued w))
      then (\<lparr>IntCmd_val = (if live w key then 1 else 0), IntCmd_err = None\<rparr>, w')
      else (\<lparr>IntCmd_val = 0, IntCmd_err = Some unreachable\<rparr>, w'))"

definition cli_Set :: "Client \<Rightarrow> string \<Rightarrow> bool \<Rightarrow> Duration \<Rightarrow> world \<Rightarrow> StatusCmd \<times> world" where
  "cli_Set c key v expiration w =
     (let w' = w\<lparr>issued := issued w @ [SET key v expiration]\<rparr> in
      if reach w (length (issued w))
      then (\<lparr>StatusCmd_val = ''OK'', StatusCmd_err = None\<rparr>,
            w'\<lparr>kv := (kv w)(key \<mapsto>
                 \<lparr>entry_value = v,
                  entry_deadline = (if 0 < sint expiration then Some (clock w + sint expiration) else None)\<rparr>)\<rparr>)
      else (\<lparr>StatusCmd_val = [], StatusCmd_err = Some unreachable\<rparr>, w'))"

text \<open>
  Modelled from the spec: the tracer is an external, optional, span-producing interface.
  Calling \<open>Start\<close> on a \<open>nil\<close> interface value panics, as any method call on a \<open>nil\<close>
  interface does in Go; on a tracer it records the opening of a span and returns the
  child context and the span. A \<open>nil\<close> parent context is taken as the background
  context.
\<close>

definition Tracer_Start ::
  "tracer option \<Rightarrow> Context option \<Rightarrow> string \<Rightarrow> world \<Rightarrow> panic + (Context \<times> span \<times> world)" where
  "Tracer_Start tr ctx name w =
     (case tr of
        None \<Rightarrow> Inl NilDereference
      | Some t \<Rightarrow>
          Inr (WithSpan name (case ctx of None \<Rightarrow> Background | Some c \<Rightarrow> c), Span name,
               w\<lparr>spans := spans w @ [SpanStarted name ctx]\<rparr>))"

definition span_End :: "span \<Rightarrow> world \<Rightarrow> world" where
  "span_End s w = (case s of Span name \<Rightarrow> w\<lparr>spans := spans w @ [SpanEnded name]\<rparr>)"

definition span_SetStatus_Error :: "span \<Rightarrow> string \<Rightarrow> world \<Rightarrow> world" where
  "span_SetStatus_Error s msg w =
     (case s of Span name \<Rightarrow> w\<lparr>spans := spans w @ [SpanStatusError name msg]\<rparr>)"

subsection \<open>The repository\<close>

record idempontencyRepoRedis =
  cli :: Client
  repoTracer :: "tracer option"

text \<open>\<open>reqKey = "req:%s"\<close>, and \<open>constructKey(id) = fmt.Sprintf(reqKey, id)\<close>.\<close>

definition constructKey :: "string \<Rightarrow> string" where
  "constructKey id' = ''req:'' @ id'"

definition Exists ::
  "idempontencyRepoRedis \<Rightarrow> string \<Rightarrow> Context option \<Rightarrow> world \<Rightarrow> panic + (bool \<times> world)" where
  "Exists i id' ctx w =
     (if repoTracer i \<noteq> None then
        (case Tracer_Start (repoTracer i) ctx ''IdempontencyRepoRedis.Exists'' w of
           Inl p \<Rightarrow> Inl p
         | Inr (_, span, w1) \<Rightarrow>
             (case cli_Exists (cli i) (constructKey id') w1 of
                (c, w2) \<Rightarrow> Inr (IntCmd_val c = 1, span_End span w2)))
      else
        (case cli_Exists (cli i) (constructKey id') w of
           (c, w1) \<Rightarrow> Inr (IntCmd_val c = 1, w1)))"

definition Save ::
  "idempontencyRepoRedis \<Rightarrow> string \<Rightarrow> Context option \<Rightarrow> world
     \<Rightarrow> panic + ((string \<times> error option) \<times> world)" where
  "Save i id' ctx w =
     (let key = constructKey id' in
      if repoTracer i \<noteq> None then
        (case Tracer_Start (repoTracer i) ctx ''IdempontencyRepoRedis.Save'' w of
           Inl p \<Rightarrow> Inl p
         | Inr (_, span, w1) \<Rightarrow>
             (case cli_Set (cli i) key True (3 * Minute) w1 of
                (c, w2) \<Rightarrow>
                  (case StatusCmd_err c of
                     Some err \<Rightarrow>
                       Inr (([], Some err), span_End span (span_SetStatus_Error span (Error err) w2))
                   | None \<Rightarrow> Inr ((id', None), span_End span w2))))
      else
        (case cli_Set (cli i) key True (3 * Minute) w of
           (c, w1) \<Rightarrow>
             (case StatusCmd_err c of
                Some err \<Rightarrow> Inr (([], Some err), w1)
              | None \<Rightarrow> Inr ((id', None), w1))))"

text \<open>
  What the repository answers about a token in a given world, that is, the value of
  \<open>Exists\<close> there.
\<close>

definition reported :: "idempontencyRepoRedis \<Rightarrow> string \<Rightarrow> world \<Rightarrow> bool" where
  "reported r tok w = (case Exists r tok None w of Inl p \<Rightarrow> False | Inr (found, w') \<Rightarrow> found)"

subsection \<open>Construction\<close>

text \<open>
  A variadic parameter \<open>tracer ...trace.Tracer\<close> is the list of the arguments passed,
  each of which may itself be \<open>nil\<close>. \<open>make([]trace.Tracer, 1)\<close> is a list of one
  \<open>nil\<close>. Reading \<open>tracer[0]\<close> panics when the list is empty. The environment is a map
  from variable names to values, and \<open>os.Getenv\<close> gives the empty string for a variable
  that is not set. \<open>redis.NewClient\<close> only records the address: it opens no connection.
\<close>

definition make_slice :: "nat \<Rightarrow> tracer option list" where
  "make_slice n = replicate n None"

definition index :: "'a list \<Rightarrow> nat \<Rightarrow> panic + 'a" where
  "index xs n = (if n < length xs then Inr (xs ! n) else Inl IndexOutOfRange)"

definition Getenv :: "(string \<rightharpoonup> string) \<Rightarrow> string \<Rightarrow> string" where
  "Getenv env name = (case env name of None \<Rightarrow> [] | Some v \<Rightarrow> v)"

definition NewClient :: "string \<Rightarrow> Client" where
  "NewClient adr = \<lparr>Addr = adr\<rparr>"

definition envError :: error where
  "envError = Err (''couldn't read .env variables for IDEMPOTENCE_REDIS_HOST,IDEMPOTENCE_REDIS_PORT. ''
                   @ ''Please check if you provided them correctly'')"

definition NewIdempotenceRepo ::
  "(string \<rightharpoonup> string) \<Rightarrow> tracer option list \<Rightarrow> panic + (error + idempontencyRepoRedis)" where
  "NewIdempotenceRepo env tracer =
     (if length tracer > 1 then Inr (Inl (tooManyArgumentsError ''NewIdempotenceRepo''))
      else
        (let tracer = (if length tracer = 0 then make_slice 1 else tracer);
             host = Getenv env ''IDEMPOTENCE_REDIS_HOST'';
             port = Getenv env ''IDEMPOTENCE_REDIS_PORT''
         in if host = [] \<or> port = [] then Inr (Inl envError)
            else
              (let adr = host @ '':'' @ port;
                   client = NewClient adr
               in case index tracer 0 of
                    Inl p \<Rightarrow> Inl p
                  | Inr t \<Rightarrow> Inr (Inr \<lparr>cli = client, repoTracer = t\<rparr>))))"

record IdempotencyHandlerImpl =
  repo :: idempontencyRepoRedis
  Tracer :: "tracer option"

text \<open>\<open>NewIdempotencyHandler\<close> of \<open>IdempotencyHandler.go\<close>.\<close>

definition NewIdempotencyHandler ::
  "(string \<rightharpoonup> string) \<Rightarrow> tracer option list \<Rightarrow> panic + (error + IdempotencyHandlerImpl)" where
  "NewIdempotencyHandler env tracer =
     (if length tracer > 1 then Inr (Inl (tooManyArgumentsError ''NewIdempotencyService''))
      else
        (let tracer = (if length tracer = 0 then make_slice 1 else tracer) in
         case index tracer 0 of
           Inl p \<Rightarrow> Inl p
         | Inr t0 \<Rightarrow>
             (case NewIdempotenceRepo env [t0] of
                Inl p \<Rightarrow> Inl p
              | Inr (Inl err) \<Rightarrow> Inr (Inl err)
              | Inr (Inr r) \<Rightarrow>
                  (case index tracer 0 of
                     Inl p \<Rightarrow> Inl p
                   | Inr t \<Rightarrow> Inr (Inr \<lparr>repo = r, Tracer = t\<rparr>)))))"

text \<open>
  \<open>NewIdempotencyHandler\<close> of \<open>idempontecyService.go\<close>, the same constructor without the
  padding of an empty argument list.
\<close>

definition NewIdempotencyHandler_service ::
  "(string \<rightharpoonup> string) \<Rightarrow> tracer option list \<Rightarrow> panic + (error + IdempotencyHandlerImpl)" where
  "NewIdempotencyHandler_service env tracer =
     (if length tracer > 1 then Inr (Inl (tooManyArgumentsError ''NewIdempotencyService''))
      else
        (case index tracer 0 of
           Inl p \<Rightarrow> Inl p
         | Inr t0 \<Rightarrow>
             (case NewIdempotenceRepo env [t0] of
                Inl p \<Rightarrow> Inl p
              | Inr (Inl err) \<Rightarrow> Inr (Inl err)
              | Inr (Inr r) \<Rightarrow>
                  (case index tracer 0 of
                     Inl p \<Rightarrow> Inl p
                   | Inr t \<Rightarrow> Inr (Inr \<lparr>repo = r, Tracer = t\<rparr>)))))"

subsection \<open>The middleware\<close>

text \<open>
  A request is its method and its header map; \<open>Header.Get\<close> gives the first value stored
  under the name, or the empty string when there is none. The response writer keeps the
  status code of the first \<open>WriteHeader\<close>. The next handler is external: calling it is
  recorded by appending the request to \<open>downstream\<close>.
\<close>

definition IDEMP_HEDER :: string where
  "IDEMP_HEDER = ''Idempotency-Key''"

definition MethodPost :: string where "MethodPost = ''POST''"
definition MethodPut :: string where "MethodPut = ''PUT''"
definition MethodPatch :: string where "MethodPatch = ''PATCH''"
definition MethodDelete :: string where "MethodDelete = ''DELETE''"

definition StatusOK :: nat where
  "StatusOK = 200"

definition Header_Get :: "(string \<rightharpoonup> string list) \<Rightarrow> string \<Rightarrow> string" where
  "Header_Get hdr name = (case hdr name of None \<Rightarrow> [] | Some [] \<Rightarrow> [] | Some (v # _) \<Rightarrow> v)"

record ResponseWriter =
  status :: "nat option"

definition WriteHeader :: "nat \<Rightarrow> ResponseWriter \<Rightarrow> ResponseWriter" where
  "WriteHeader code rw = (if status rw = None then rw\<lparr>status := Some code\<rparr> else rw)"

definition next_ServeHTTP :: "Request \<Rightarrow> world \<Rightarrow> world" where
  "next_ServeHTTP h w = w\<lparr>downstream := downstream w @ [h]\<rparr>"

text \<open>
  The statement
  \<^verbatim>\<open>if Get(IDEMP_HEDER) != "" && repo.Exists(Get(IDEMP_HEDER), ctx) { WriteHeader(200); return }
   else { repo.Save(Get(IDEMP_HEDER), ctx) }\<close>
  is written three times in the source, with \<open>ctx\<close> the span's context or \<open>nil\<close>.
  \<open>checkThenSave\<close> is that statement: \<open>&&\<close> calls \<open>Exists\<close> only when the header is not
  empty, the value of \<open>Save\<close> is dropped, and the flag returned says whether \<open>return\<close>
  was executed.
\<close>

definition checkThenSave ::
  "idempontencyRepoRedis \<Rightarrow> ResponseWriter \<Rightarrow> Request \<Rightarrow> Context option \<Rightarrow> world
     \<Rightarrow> panic + (bool \<times> ResponseWriter \<times> world)" where
  "checkThenSave r rw h ctx w =
     (case (if Header_Get (Header h) IDEMP_HEDER \<noteq> []
            then Exists r (Header_Get (Header h) IDEMP_HEDER) ctx w
            else Inr (False, w)) of
        Inl p \<Rightarrow> Inl p
      | Inr (found, w1) \<Rightarrow>
          if found then Inr (True, WriteHeader StatusOK rw, w1)
          else
            (case Save r (Header_Get (Header h) IDEMP_HEDER) ctx w1 of
               Inl p \<Rightarrow> Inl p
             | Inr (_, w2) \<Rightarrow> Inr (False, rw, w2)))"

definition mutating :: "string \<Rightarrow> bool" where
  "mutating m = (m = MethodPost \<or> m = MethodPut \<or> m = MethodPatch \<or> m = MethodDelete)"

text \<open>
  \<open>MiddlewareIdempotency\<close> of \<open>IdempotencyHandler.go\<close>. The deferred \<open>span.End()\<close> runs
  when the function returns, so after the next handler on the forwarding path.
\<close>

definition MiddlewareIdempotency ::
  "IdempotencyHandlerImpl \<Rightarrow> ResponseWriter \<Rightarrow> Request \<Rightarrow> world \<Rightarrow> panic + (ResponseWriter \<times> world)" where
  "MiddlewareIdempotency handler rw h w =
     (if mutating (Method h) then
        (if Tracer handler \<noteq> None then
           (case Tracer_Start (Tracer handler) (Some Background)
                   ''IdempotencyHandler.MiddlewareIdempotency'' w of
              Inl p \<Rightarrow> Inl p
            | Inr (ctx, span, w1) \<Rightarrow>
                (case checkThenSave (repo handler) rw h (Some ctx) w1 of
                   Inl p \<Rightarrow> Inl p
                 | Inr (returned, rw1, w2) \<Rightarrow>
                     if returned then Inr (rw1, span_End span w2)
                     else Inr (rw1, span_End span (next_ServeHTTP h w2))))
         else
           (case checkThenSave (repo handler) rw h None w of
              Inl p \<Rightarrow> Inl p
            | Inr (returned, rw1, w1) \<Rightarrow>
                if returned then Inr (rw1, w1)
                else Inr (rw1, next_ServeHTTP h w1)))
      else Inr (rw, next_ServeHTTP h w))"

text \<open>
  \<open>MiddlewareIdempotency\<close> of \<open>idempontecyService.go\<close>: the span is started without
  testing the tracer.
\<close>

definition MiddlewareIdempotency_service ::
  "IdempotencyHandlerImpl \<Rightarrow> ResponseWriter \<Rightarrow> Request \<Rightarrow> world \<Rightarrow> panic + (ResponseWriter \<times> world)" where
  "MiddlewareIdempotency_service service rw h w =
     (if mutating (Method h) then
        (case Tracer_Start (Tracer service) (Some Background)
                ''IdempotencyHandler.MiddlewareIdempotency'' w of
           Inl p \<Rightarrow> Inl p
         | Inr (ctx, span, w1) \<Rightarrow>
             (case checkThenSave (repo service) rw h (Some ctx) w1 of
                Inl p \<Rightarrow> Inl p
              | Inr (returned, rw1, w2) \<Rightarrow>
                  if returned then Inr (rw1, span_End span w2)
                  else Inr (rw1, span_End span (next_ServeHTTP h w2))))
      else Inr (rw, next_ServeHTTP h w))"

subsection \<open>Requests served one after another, and requests served concurrently\<close>

text \<open>
  \<open>serve_all\<close> serves a list of requests one after another with the same handler, each
  with a response writer of its own, the request \<open>(d, h)\<close> arriving \<open>d\<close> nanoseconds
  after the one before it was answered.
\<close>

fun serve_all ::
  "IdempotencyHandlerImpl \<Rightarrow> (int \<times> Request) list \<Rightarrow> world
     \<Rightarrow> panic + (ResponseWriter list \<times> world)" where
  "serve_all handler [] w = Inr ([], w)"
| "serve_all handler ((d, h) # hs) w =
     (case MiddlewareIdempotency handler \<lparr>status = None\<rparr> h (advance d w) of
        Inl p \<Rightarrow> Inl p
      | Inr (rw, w1) \<Rightarrow>
          (case serve_all handler hs w1 of
             Inl p \<Rightarrow> Inl p
           | Inr (rws, w2) \<Rightarrow> Inr (rw # rws, w2)))"

text \<open>
  The Go HTTP server runs the middleware of each request in a goroutine of its own, so
  the calls that two requests make to the repository may alternate. \<open>gate_step\<close> cuts
  \<open>MiddlewareIdempotency\<close> between the call of \<open>Exists\<close> and the call of \<open>Save\<close>: a
  request that has \<open>Arrived\<close> runs up to and including the existence check, and is then
  \<open>Done\<close> (answered, or forwarded without a check) or \<open>Checked\<close>; a \<open>Checked\<close> request
  runs \<open>Save\<close>, the next handler and the deferred end of the span. \<open>interleave\<close> runs
  the requests \<open>ps\<close> in the order given by a schedule, a list of indices into \<open>ps\<close>.
\<close>

datatype phase = Arrived | Checked "Context option" "span option" | Done

record proc =
  proc_req :: Request
  proc_rw :: ResponseWriter
  proc_phase :: phase

definition arrive :: "Request \<Rightarrow> proc" where
  "arrive h = \<lparr>proc_req = h, proc_rw = \<lparr>status = None\<rparr>, proc_phase = Arrived\<rparr>"

definition end_deferred :: "span option \<Rightarrow> world \<Rightarrow> world" where
  "end_deferred sp w = (case sp of None \<Rightarrow> w | Some s \<Rightarrow> span_End s w)"

definition gate_step ::
  "IdempotencyHandlerImpl \<Rightarrow> proc \<Rightarrow> world \<Rightarrow> panic + (proc \<times> world)" where
  "gate_step handler p w =
     (let h = proc_req p in
      case proc_phase p of
        Arrived \<Rightarrow>
          if mutating (Method h) then
            (case (if Tracer handler \<noteq> None then
                     (case Tracer_Start (Tracer handler) (Some Background)
                             ''IdempotencyHandler.MiddlewareIdempotency'' w of
                        Inl e \<Rightarrow> Inl e
                      | Inr (ctx, span, w1) \<Rightarrow> Inr (Some ctx, Some span, w1))
                   else Inr (None, None, w)) of
               Inl e \<Rightarrow> Inl e
             | Inr (ctx, sp, w1) \<Rightarrow>
                 (case (if Header_Get (Header h) IDEMP_HEDER \<noteq> []
                        then Exists (repo handler) (Header_Get (Header h) IDEMP_HEDER) ctx w1
                        else Inr (False, w1)) of
                    Inl e \<Rightarrow> Inl e
                  | Inr (found, w2) \<Rightarrow>
                      if found
                      then Inr (p\<lparr>proc_rw := WriteHeader StatusOK (proc_rw p), proc_phase := Done\<rparr>,
                                end_deferred sp w2)
                      else Inr (p\<lparr>proc_phase := Checked ctx sp\<rparr>, w2)))
          else Inr (p\<lparr>proc_phase := Done\<rparr>, next_ServeHTTP h w)
      | Checked ctx sp \<Rightarrow>
          (case Save (repo handler) (Header_Get (Header h) IDEMP_HEDER) ctx w of
             Inl e \<Rightarrow> Inl e
           | Inr (_, w1) \<Rightarrow>
               Inr (p\<lparr>proc_phase := Done\<rparr>, end_deferred sp (next_ServeHTTP h w1)))
      | Done \<Rightarrow> Inr (p, w))"

fun interleave ::
  "IdempotencyHandlerImpl \<Rightarrow> nat list \<Rightarrow> proc list \<Rightarrow> world \<Rightarrow> panic + (proc list \<times> world)" where
  "interleave handler [] ps w = Inr (ps, w)"
| "interleave handler (i # sched) ps w =
     (if i < length ps then
        (case gate_step handler (ps ! i) w of
           Inl e \<Rightarrow> Inl e
         | Inr (p, w1) \<Rightarrow> interleave handler sched (ps[i := p]) w1)
      else interleave handler sched ps w)"

subsection \<open>Concrete inputs\<close>

definition env_ok :: "string \<rightharpoonup> string" where
  "env_ok = [''IDEMPOTENCE_REDIS_HOST'' \<mapsto> ''localhost'', ''IDEMPOTENCE_REDIS_PORT'' \<mapsto> ''6379'']"

definition env_no_host :: "string \<rightharpoonup> string" where
  "env_no_host = [''IDEMPOTENCE_REDIS_PORT'' \<mapsto> ''6379'']"

definition untraced :: IdempotencyHandlerImpl where
  "untraced = \<lparr>repo = \<lparr>cli = \<lparr>Addr = ''localhost:6379''\<rparr>, repoTracer = None\<rparr>, Tracer = None\<rparr>"

definition traced :: IdempotencyHandlerImpl where
  "traced = \<lparr>repo = \<lparr>cli = \<lparr>Addr = ''localhost:6379''\<rparr>, repoTracer = Some (TracerImpl ''t'')\<rparr>,
             Tracer = Some (TracerImpl ''t'')\<rparr>"

definition fresh :: world where
  "fresh = \<lparr>kv = Map.empty, clock = 0, reach = (\<lambda>n. True), issued = [], spans = [], downstream = []\<rparr>"

definition outage :: world where
  "outage = \<lparr>kv = Map.empty, clock = 0, reach = (\<lambda>n. False), issued = [], spans = [], downstream = []\<rparr>"

definition post_abc :: Request where
  "post_abc = \<lparr>Method = ''POST'', Header = [''Idempotency-Key'' \<mapsto> [''abc'']]\<rparr>"

definition post_plain :: Request where
  "post_plain = \<lparr>Method = ''POST'', Header = Map.empty\<rparr>"

definition get_abc :: Request where
  "get_abc = \<lparr>Method = ''GET'', Header = [''Idempotency-Key'' \<mapsto> [''abc'']]\<rparr>"

section \<open>Properties\<close>

subsection \<open>What the repository calls do to the world\<close>

lemmas repo_defs = Exists_def Save_def cli_Exists_def cli_Set_def Tracer_Start_def span_End_def
  span_SetStatus_Error_def Let_def

lemmas gate_defs = MiddlewareIdempotency_def checkThenSave_def next_ServeHTTP_def

lemma three_minutes: "sint (3 * Minute :: Duration) = 180000000000"
  by (simp add: Minute_def Second_def Nanosecond_def)

lemma live_frame [simp]:
  "live (w\<lparr>spans := s\<rparr>) k = live w k"
  "live (w\<lparr>issued := c\<rparr>) k = live w k"
  "live (w\<lparr>downstream := d\<rparr>) k = live w k"
  by (simp_all add: live_def split: option.splits)

lemma advance_fields [simp]:
  "kv (advance d w) = kv w" "clock (advance d w) = clock w + d" "reach (advance d w) = reach w"
  "issued (advance d w) = issued w" "downstream (advance d w) = downstream w"
  "spans (advance d w) = spans w"
  by (simp_all add: advance_def)

text \<open>
  \<open>Exists\<close> answers true exactly when its command reaches the server and the key is
  present; it sends one \<open>EXISTS\<close> command and changes nothing on the server.
\<close>

lemma Exists_effect:
  "\<exists>w'. Exists i tok ctx w = Inr (reach w (length (issued w)) \<and> live w (constructKey tok), w')
        \<and> kv w' = kv w \<and> clock w' = clock w \<and> reach w' = reach w
        \<and> issued w' = issued w @ [EXISTS (constructKey tok)]
        \<and> downstream w' = downstream w
        \<and> (repoTracer i = None \<longrightarrow> spans w' = spans w)"
  by (cases "repoTracer i")
     (simp_all add: Exists_def cli_Exists_def Tracer_Start_def span_End_def Let_def)

text \<open>
  \<open>Save\<close> sends one \<open>SET\<close> command; when it reaches the server the key is stored and
  the token returned, otherwise nothing is stored and the error is returned.
\<close>

lemma Save_effect:
  "\<exists>r w'. Save i tok ctx w = Inr (r, w')
        \<and> r = (if reach w (length (issued w)) then (tok, None) else ([], Some unreachable))
        \<and> kv w' = (if reach w (length (issued w))
                     then (kv w)(constructKey tok \<mapsto>
                            \<lparr>entry_value = True, entry_deadline = Some (clock w + 180000000000)\<rparr>)
                     else kv w)
        \<and> clock w' = clock w \<and> reach w' = reach w
        \<and> issued w' = issued w @ [SET (constructKey tok) True (3 * Minute)]
        \<and> downstream w' = downstream w
        \<and> (repoTracer i = None \<longrightarrow> spans w' = spans w)"
  by (cases "repoTracer i")
     (simp_all add: Save_def cli_Set_def Tracer_Start_def span_End_def span_SetStatus_Error_def
        three_minutes Let_def)

subsection \<open>What the middleware does with a request that carries a token\<close>

lemma mw_claimed:
  assumes "mutating (Method h)" and "Header_Get (Header h) IDEMP_HEDER \<noteq> []"
    and "reach w (length (issued w))" and "live w (constructKey (Header_Get (Header h) IDEMP_HEDER))"
  shows "\<exists>w'. MiddlewareIdempotency handler rw h w = Inr (WriteHeader StatusOK rw, w')
           \<and> downstream w' = downstream w
           \<and> issued w' = issued w @ [EXISTS (constructKey (Header_Get (Header h) IDEMP_HEDER))]
           \<and> kv w' = kv w \<and> clock w' = clock w \<and> reach w' = reach w"
  using assms
  by (cases "Tracer handler"; cases "repoTracer (repo handler)")
     (simp_all add: gate_defs repo_defs)

lemma mw_fresh:
  assumes "mutating (Method h)" and "Header_Get (Header h) IDEMP_HEDER \<noteq> []"
    and "\<not> (reach w (length (issued w)) \<and> live w (constructKey (Header_Get (Header h) IDEMP_HEDER)))"
  shows "\<exists>w'. MiddlewareIdempotency handler rw h w = Inr (rw, w')
           \<and> downstream w' = downstream w @ [h]
           \<and> issued w' = issued w @ [EXISTS (constructKey (Header_Get (Header h) IDEMP_HEDER)),
                                         SET (constructKey (Header_Get (Header h) IDEMP_HEDER)) True (3 * Minute)]
           \<and> kv w' = (if reach w (Suc (length (issued w)))
                        then (kv w)(constructKey (Header_Get (Header h) IDEMP_HEDER) \<mapsto>
                               \<lparr>entry_value = True, entry_deadline = Some (clock w + 180000000000)\<rparr>)
                        else kv w)
           \<and> clock w' = clock w \<and> reach w' = reach w"
  using assms
  by (cases "Tracer handler"; cases "repoTracer (repo handler)")
     (auto simp add: gate_defs repo_defs three_minutes)

subsection \<open>Methods that are not protected\<close>

text \<open>
  C5. A request whose method is none of POST, PUT, PATCH, DELETE is handed to the next
  handler, once, whatever its headers are: the response writer is untouched, no command
  is sent to the store and no span is opened, the only change is the request appended
  to the requests seen downstream.
\<close>

theorem other_methods_forwarded:
  assumes "Method h \<notin> {''POST'', ''PUT'', ''PATCH'', ''DELETE''}"
  shows "MiddlewareIdempotency handler rw h w = Inr (rw, w\<lparr>downstream := downstream w @ [h]\<rparr>)"
  using assms
  by (simp add: MiddlewareIdempotency_def mutating_def MethodPost_def MethodPut_def
        MethodPatch_def MethodDelete_def next_ServeHTTP_def)

theorem other_methods_forwarded_witness:
  "Method get_abc \<notin> {''POST'', ''PUT'', ''PATCH'', ''DELETE''}
   \<and> Header_Get (Header get_abc) IDEMP_HEDER = ''abc''
   \<and> MiddlewareIdempotency traced \<lparr>status = None\<rparr> get_abc fresh
       = Inr (\<lparr>status = None\<rparr>, fresh\<lparr>downstream := [get_abc]\<rparr>)
   \<and> issued (fresh\<lparr>downstream := [get_abc]\<rparr>) = []"
  using other_methods_forwarded [of get_abc traced "\<lparr>status = None\<rparr>" fresh]
  by (simp add: get_abc_def Header_Get_def IDEMP_HEDER_def fresh_def)

subsection \<open>Construction\<close>

text \<open>
  C9. With more than one tracer argument \<open>NewIdempotencyHandler\<close> (in both source
  files) and \<open>NewIdempotenceRepo\<close> return the too-many-arguments error, and no instance.
\<close>

theorem too_many_tracers:
  assumes "length tracer > 1"
  shows "NewIdempotencyHandler env tracer = Inr (Inl (tooManyArgumentsError ''NewIdempotencyService''))
       \<and> NewIdempotenceRepo env tracer = Inr (Inl (tooManyArgumentsError ''NewIdempotenceRepo''))
       \<and> NewIdempotencyHandler_service env tracer
           = Inr (Inl (tooManyArgumentsError ''NewIdempotencyService''))"
  using assms
  by (simp add: NewIdempotencyHandler_def NewIdempotenceRepo_def NewIdempotencyHandler_service_def)

theorem too_many_tracers_witness:
  "length [None, Some (TracerImpl ''t'')] > 1
   \<and> NewIdempotencyHandler env_ok [None, Some (TracerImpl ''t'')]
       = Inr (Inl (Err ''NewIdempotencyService : you passed in to many argumants into this function''))
   \<and> NewIdempotenceRepo env_ok [None, Some (TracerImpl ''t'')]
       = Inr (Inl (Err ''NewIdempotenceRepo : you passed in to many argumants into this function''))"
  using too_many_tracers [of "[None, Some (TracerImpl ''t'')]" env_ok]
  by (simp add: tooManyArgumentsError_def)

text \<open>
  C7. When \<open>IDEMPOTENCE_REDIS_HOST\<close> or \<open>IDEMPOTENCE_REDIS_PORT\<close> is not set or is empty,
  \<open>NewIdempotenceRepo\<close> and \<open>NewIdempotencyHandler\<close> return an error and no instance,
  for every list of tracer arguments; with at most one tracer argument the error is the
  one about the environment. No handler exists then, so no request is ever served by
  one.
\<close>

theorem missing_address_fails_construction:
  assumes "env ''IDEMPOTENCE_REDIS_HOST'' \<in> {None, Some []}
         \<or> env ''IDEMPOTENCE_REDIS_PORT'' \<in> {None, Some []}"
  shows "(\<exists>e. NewIdempotenceRepo env tracer = Inr (Inl e))
       \<and> (\<exists>e. NewIdempotencyHandler env tracer = Inr (Inl e))
       \<and> (length tracer \<le> 1 \<longrightarrow> NewIdempotenceRepo env tracer = Inr (Inl envError)
                                  \<and> NewIdempotencyHandler env tracer = Inr (Inl envError))"
proof -
  have g: "Getenv env ''IDEMPOTENCE_REDIS_HOST'' = [] \<or> Getenv env ''IDEMPOTENCE_REDIS_PORT'' = []"
    using assms by (auto simp: Getenv_def)
  have r: "\<And>ts. length ts \<le> 1 \<Longrightarrow> NewIdempotenceRepo env ts = Inr (Inl envError)"
    using g by (auto simp: NewIdempotenceRepo_def Let_def)
  have h: "length tracer \<le> 1 \<Longrightarrow> NewIdempotencyHandler env tracer = Inr (Inl envError)"
    using r [of "[x]" for x]
    by (cases tracer) (simp_all add: NewIdempotencyHandler_def Let_def make_slice_def index_def)
  show ?thesis
  proof (cases "length tracer \<le> 1")
    case True
    then show ?thesis using r [of tracer] h by simp
  next
    case False
    then show ?thesis
      by (simp add: NewIdempotencyHandler_def NewIdempotenceRepo_def)
  qed
qed

theorem missing_address_fails_construction_witness:
  "env_no_host ''IDEMPOTENCE_REDIS_HOST'' = None
   \<and> NewIdempotenceRepo env_no_host [] = Inr (Inl envError)
   \<and> NewIdempotencyHandler env_no_host [] = Inr (Inl envError)"
  using missing_address_fails_construction [of env_no_host "[]"]
  by (simp add: env_no_host_def)

lemma reported_eq:
  "reported r tok w = (reach w (length (issued w)) \<and> live w (constructKey tok))"
  using Exists_effect [of r tok None w] by (auto simp: reported_def)

subsection \<open>Requests that carry a token\<close>

text \<open>
  C2. Take a request whose method is POST, PUT, PATCH or DELETE, whose
  \<open>Idempotency-Key\<close> header is the non-empty token \<open>tok\<close>, and a response writer on
  which no status was written. If the repository reports the token as existing, the
  middleware writes status 200, does not call the next handler, and sends only the
  existence check to the store. If the repository reports it as not existing, the
  middleware records the token, that is, it calls \<open>Save\<close>, which sends one \<open>SET\<close> of the
  token's key with the 3 minutes expiry (and when that command reaches the server the
  key is stored and present), and it calls the next handler exactly once, leaving the
  response writer as it was.
\<close>

theorem token_claimed_or_fresh:
  assumes "Method h \<in> {''POST'', ''PUT'', ''PATCH'', ''DELETE''}"
    and "Header_Get (Header h) IDEMP_HEDER = tok" and "tok \<noteq> []"
    and "status rw = None"
  shows "(reported (repo handler) tok w \<longrightarrow>
            (\<exists>rw' w'. MiddlewareIdempotency handler rw h w = Inr (rw', w')
                \<and> status rw' = Some 200
                \<and> downstream w' = downstream w
                \<and> issued w' = issued w @ [EXISTS (constructKey tok)]
                \<and> kv w' = kv w))
       \<and> (\<not> reported (repo handler) tok w \<longrightarrow>
            (\<exists>w'. MiddlewareIdempotency handler rw h w = Inr (rw, w')
                \<and> downstream w' = downstream w @ [h]
                \<and> issued w' = issued w @ [EXISTS (constructKey tok), SET (constructKey tok) True (3 * Minute)]
                \<and> (reach w (Suc (length (issued w))) \<longrightarrow>
                      kv w' (constructKey tok)
                        = Some \<lparr>entry_value = True, entry_deadline = Some (clock w + 180000000000)\<rparr>
                      \<and> live w' (constructKey tok))))"
proof -
  have m: "mutating (Method h)"
    using assms(1) by (auto simp: mutating_def MethodPost_def MethodPut_def MethodPatch_def MethodDelete_def)
  have t: "Header_Get (Header h) IDEMP_HEDER \<noteq> []" using assms(2,3) by simp
  show ?thesis
  proof (cases "reported (repo handler) tok w")
    case True
    then have "reach w (length (issued w))" "live w (constructKey (Header_Get (Header h) IDEMP_HEDER))"
      using assms(2) by (simp_all add: reported_eq)
    from mw_claimed [OF m t this, of handler rw] True assms(2,4)
    show ?thesis by (auto simp: WriteHeader_def StatusOK_def)
  next
    case False
    then have "\<not> (reach w (length (issued w)) \<and> live w (constructKey (Header_Get (Header h) IDEMP_HEDER)))"
      using assms(2) by (simp add: reported_eq)
    from mw_fresh [OF m t this, of handler rw] False assms(2)
    show ?thesis by (auto simp: live_def)
  qed
qed

theorem token_claimed_or_fresh_witness:
  "\<not> reported (repo untraced) ''abc'' fresh
   \<and> (\<exists>w1. MiddlewareIdempotency untraced \<lparr>status = None\<rparr> post_abc fresh = Inr (\<lparr>status = None\<rparr>, w1)
        \<and> downstream w1 = [post_abc]
        \<and> issued w1 = [EXISTS ''req:abc'', SET ''req:abc'' True (3 * Minute)]
        \<and> reported (repo untraced) ''abc'' w1
        \<and> (\<exists>w2. MiddlewareIdempotency untraced \<lparr>status = None\<rparr> post_abc w1 = Inr (\<lparr>status = Some 200\<rparr>, w2)
              \<and> downstream w2 = [post_abc]))"
proof -
  have p: "Method post_abc \<in> {''POST'', ''PUT'', ''PATCH'', ''DELETE''}"
    "Header_Get (Header post_abc) IDEMP_HEDER = ''abc''" "''abc'' \<noteq> []"
    "status \<lparr>status = None\<rparr> = None"
    by (simp_all add: post_abc_def Header_Get_def IDEMP_HEDER_def)
  have f: "\<not> reported (repo untraced) ''abc'' fresh"
    by (simp add: reported_eq fresh_def live_def)
  from token_claimed_or_fresh [OF p, of untraced fresh] f
  obtain w1 where w1: "MiddlewareIdempotency untraced \<lparr>status = None\<rparr> post_abc fresh = Inr (\<lparr>status = None\<rparr>, w1)"
    and d1: "downstream w1 = [post_abc]"
    and i1: "issued w1 = [EXISTS ''req:abc'', SET ''req:abc'' True (3 * Minute)]"
    and l1: "live w1 (constructKey ''abc'')"
    by (auto simp: fresh_def constructKey_def)
  have r1: "reach w1 = (\<lambda>n. True)"
    using w1 by (auto simp: untraced_def fresh_def post_abc_def gate_defs repo_defs mutating_def
        MethodPost_def Header_Get_def IDEMP_HEDER_def split: if_splits)
  have c1: "reported (repo untraced) ''abc'' w1"
    using l1 r1 by (simp add: reported_eq)
  from token_claimed_or_fresh [OF p, of untraced w1] c1 d1
  obtain w2 where "MiddlewareIdempotency untraced \<lparr>status = None\<rparr> post_abc w1 = Inr (\<lparr>status = Some 200\<rparr>, w2)"
    "downstream w2 = [post_abc]"
    by (auto simp: )
  with f w1 d1 i1 c1 show ?thesis by (auto simp: )
qed

subsection \<open>Requests without a token\<close>

lemma mw_no_token:
  assumes "mutating (Method h)" and "Header_Get (Header h) IDEMP_HEDER = []"
  shows "\<exists>w'. MiddlewareIdempotency handler rw h w = Inr (rw, w')
           \<and> downstream w' = downstream w @ [h]
           \<and> issued w' = issued w @ [SET ''req:'' True (3 * Minute)]"
  using assms
  by (cases "Tracer handler"; cases "repoTracer (repo handler)")
     (auto simp add: gate_defs repo_defs constructKey_def)

text \<open>
  C3. A POST request without an \<open>Idempotency-Key\<close> header is handed to the next handler,
  and the existence check is skipped, but the \<open>else\<close> branch still calls \<open>Save\<close> with the
  empty token: one \<open>SET\<close> of the key \<open>req:\<close> is sent to the store and the key is stored
  with the 3 minutes expiry.
\<close>

theorem no_token_still_writes:
  "Header_Get (Header post_plain) IDEMP_HEDER = []
   \<and> MiddlewareIdempotency untraced \<lparr>status = None\<rparr> post_plain fresh
       = Inr (\<lparr>status = None\<rparr>,
              fresh\<lparr>kv := [''req:'' \<mapsto> \<lparr>entry_value = True, entry_deadline = Some 180000000000\<rparr>],
                    issued := [SET ''req:'' True (3 * Minute)],
                    downstream := [post_plain]\<rparr>)"
  by (simp add: post_plain_def untraced_def fresh_def Header_Get_def IDEMP_HEDER_def gate_defs
        repo_defs mutating_def MethodPost_def constructKey_def three_minutes)

subsection \<open>Store errors\<close>

text \<open>
  C4, as stated, fails: with the server unreachable \<open>Save\<close> returns the error, and the
  middleware, which drops the value of \<open>Save\<close>, hands the POST request with the token
  \<open>abc\<close> to the next handler without writing a status, exactly as it does for a fresh
  token on a reachable server; nothing was stored.
\<close>

theorem store_error_forwarded_silently:
  "Save (repo untraced) ''abc'' None outage
     = Inr (([], Some unreachable), outage\<lparr>issued := [SET ''req:abc'' True (3 * Minute)]\<rparr>)
   \<and> MiddlewareIdempotency untraced \<lparr>status = None\<rparr> post_abc outage
       = Inr (\<lparr>status = None\<rparr>,
              outage\<lparr>issued := [EXISTS ''req:abc'', SET ''req:abc'' True (3 * Minute)],
                     downstream := [post_abc]\<rparr>)"
  by (simp add: post_abc_def untraced_def outage_def Header_Get_def IDEMP_HEDER_def gate_defs
        repo_defs mutating_def MethodPost_def constructKey_def)

text \<open>
  C4, amended. \<open>Exists\<close> turns a store error into the answer "does not exist", and the
  middleware ignores the error that \<open>Save\<close> returns. So for every request with a
  protected method and a non-empty token during which a store command fails (the
  existence check fails, or the token is absent and the write fails), the request is
  handed to the next handler exactly once and no status is written; and nothing is
  stored when the write did not reach the server. The behaviour is fail-open and fixed:
  the handler has no policy setting.
\<close>

theorem store_error_fails_open:
  assumes "Method h \<in> {''POST'', ''PUT'', ''PATCH'', ''DELETE''}"
    and "Header_Get (Header h) IDEMP_HEDER = tok" and "tok \<noteq> []"
    and "\<not> reach w (length (issued w))
         \<or> (\<not> live w (constructKey tok) \<and> \<not> reach w (Suc (length (issued w))))"
  shows "\<exists>w'. MiddlewareIdempotency handler rw h w = Inr (rw, w')
           \<and> downstream w' = downstream w @ [h]
           \<and> (\<not> reach w (Suc (length (issued w))) \<longrightarrow> kv w' = kv w)"
proof -
  have m: "mutating (Method h)"
    using assms(1) by (auto simp: mutating_def MethodPost_def MethodPut_def MethodPatch_def MethodDelete_def)
  have t: "Header_Get (Header h) IDEMP_HEDER \<noteq> []" using assms(2,3) by simp
  have "\<not> (reach w (length (issued w)) \<and> live w (constructKey (Header_Get (Header h) IDEMP_HEDER)))"
    using assms(2,4) by auto
  from mw_fresh [OF m t this, of handler rw]
  show ?thesis by auto
qed

theorem store_error_fails_open_witness:
  "\<not> reach outage (length (issued outage))
   \<and> (\<exists>w'. MiddlewareIdempotency traced \<lparr>status = None\<rparr> post_abc outage = Inr (\<lparr>status = None\<rparr>, w')
         \<and> downstream w' = [post_abc] \<and> kv w' = Map.empty)"
proof -
  have p: "Method post_abc \<in> {''POST'', ''PUT'', ''PATCH'', ''DELETE''}"
    "Header_Get (Header post_abc) IDEMP_HEDER = ''abc''" "''abc'' \<noteq> []"
    by (simp_all add: post_abc_def Header_Get_def IDEMP_HEDER_def)
  have o: "\<not> reach outage (length (issued outage))
         \<or> (\<not> live outage (constructKey ''abc'') \<and> \<not> reach outage (Suc (length (issued outage))))"
    by (simp add: outage_def)
  from store_error_fails_open [OF p o, of traced "\<lparr>status = None\<rparr>"]
  show ?thesis by (auto simp: outage_def)
qed

subsection \<open>The expiry and the key\<close>

text \<open>
  C6. \<open>Save\<close> always returns, having sent exactly one command,
  \<open>SET key true\<close> with the duration \<open>time.Duration(3) * time.Minute\<close>, which is
  \<open>3 * 60 * 10^9\<close> nanoseconds (the 64-bit product does not wrap); when \<open>Save\<close> reports
  no error, the record stored under the key expires exactly that long after the instant
  of the write.
\<close>

theorem save_sets_three_minutes:
  "\<exists>r w'. Save i tok ctx w = Inr (r, w')
      \<and> issued w' = issued w @ [SET (constructKey tok) True (3 * Minute)]
      \<and> sint (3 * Minute :: Duration) = 3 * 60 * 1000000000
      \<and> (snd r = None \<longrightarrow>
           kv w' (constructKey tok)
             = Some \<lparr>entry_value = True, entry_deadline = Some (clock w + 3 * 60 * 1000000000)\<rparr>)"
  using Save_effect [of i tok ctx w] by (auto simp: three_minutes split: if_splits)

theorem save_sets_three_minutes_witness:
  "\<exists>w'. Save (repo traced) ''abc'' None fresh = Inr ((''abc'', None), w')
      \<and> issued w' = [SET ''req:abc'' True 180000000000]
      \<and> kv w' ''req:abc'' = Some \<lparr>entry_value = True, entry_deadline = Some 180000000000\<rparr>"
  using save_sets_three_minutes [of "repo traced" "''abc''" None fresh]
  by (auto simp: traced_def fresh_def repo_defs constructKey_def three_minutes
        Minute_def Second_def Nanosecond_def)

text \<open>
  C10. \<open>Save\<close> and \<open>Exists\<close> address the store by the same key, \<open>req:\<close> followed by
  the token: the last command sent by a successful \<open>Save\<close> is a \<open>SET\<close> of that key, and
  an \<open>Exists\<close> for the same token, by any repository instance and with any context,
  made less than 3 minutes later on a reachable server, sends \<open>EXISTS\<close> of that key and
  answers true.
\<close>

theorem saved_token_exists:
  assumes "Save i tok ctx w = Inr ((r, None), w1)"
    and "0 \<le> d" and "d < 180000000000"
    and "reach w1 (length (issued w1))"
  shows "constructKey tok = ''req:'' @ tok
       \<and> last (issued w1) = SET (constructKey tok) True (3 * Minute)
       \<and> (\<exists>w2. Exists i' tok ctx' (advance d w1) = Inr (True, w2)
                \<and> last (issued w2) = EXISTS (constructKey tok))"
proof -
  from Save_effect [of i tok ctx w] assms(1)
  have s: "kv w1 (constructKey tok)
             = Some \<lparr>entry_value = True, entry_deadline = Some (clock w + 180000000000)\<rparr>"
    and c: "clock w1 = clock w"
    and l: "issued w1 = issued w @ [SET (constructKey tok) True (3 * Minute)]"
    by (auto split: if_splits)
  have lv: "live (advance d w1) (constructKey tok)"
    using s c assms(2,3) by (simp add: live_def)
  from Exists_effect [of i' tok ctx' "advance d w1"] lv assms(4) l
  show ?thesis by (auto simp: constructKey_def)
qed

theorem saved_token_exists_witness:
  "\<exists>w1 w2. Save (repo untraced) ''abc'' None fresh = Inr ((''abc'', None), w1)
      \<and> reach w1 (length (issued w1))
      \<and> last (issued w1) = SET ''req:abc'' True (3 * Minute)
      \<and> Exists (repo untraced) ''abc'' None (advance 10000000000 w1) = Inr (True, w2)
      \<and> last (issued w2) = EXISTS ''req:abc''"
proof -
  obtain w1 where w1: "Save (repo untraced) ''abc'' None fresh = Inr ((''abc'', None), w1)"
    and r: "reach w1 = (\<lambda>n. True)"
    by (simp add: untraced_def fresh_def repo_defs)
  from saved_token_exists [OF w1, of 10000000000 "repo untraced" None] r w1
  show ?thesis by (auto simp: constructKey_def)
qed

subsection \<open>Construction without a tracer\<close>

lemma untraced_never_panics:
  assumes "Tracer handler = None" and "repoTracer (repo handler) = None"
  shows "\<exists>rw' w'. MiddlewareIdempotency handler rw h w = Inr (rw', w') \<and> spans w' = spans w"
  using assms by (simp add: gate_defs repo_defs)

text \<open>
  C8, as stated, fails: construction with no tracer argument does not always succeed.
  Without \<open>IDEMPOTENCE_REDIS_HOST\<close> the constructor of \<open>IdempotencyHandler.go\<close> returns
  the environment error.
\<close>

theorem no_tracer_no_address:
  "NewIdempotencyHandler env_no_host [] = Inr (Inl envError)"
  by (simp add: NewIdempotencyHandler_def NewIdempotenceRepo_def env_no_host_def Getenv_def
        make_slice_def index_def)

text \<open>
  C8, amended. When host and port are set, \<open>NewIdempotencyHandler\<close> of
  \<open>IdempotencyHandler.go\<close> called with no tracer argument returns a handler whose
  tracer, and whose repository's tracer, is \<open>nil\<close>; that handler serves every request,
  in every world, without a panic and without recording any span event.
\<close>

theorem no_tracer_construction:
  assumes "Getenv env ''IDEMPOTENCE_REDIS_HOST'' \<noteq> []" and "Getenv env ''IDEMPOTENCE_REDIS_PORT'' \<noteq> []"
  shows "\<exists>handler. NewIdempotencyHandler env [] = Inr (Inr handler)
           \<and> Tracer handler = None \<and> repoTracer (repo handler) = None
           \<and> (\<forall>rw h w. \<exists>rw' w'. MiddlewareIdempotency handler rw h w = Inr (rw', w')
                                 \<and> spans w' = spans w)"
proof -
  let ?hd = "\<lparr>repo = \<lparr>cli = NewClient (Getenv env ''IDEMPOTENCE_REDIS_HOST'' @ '':''
                                        @ Getenv env ''IDEMPOTENCE_REDIS_PORT''),
                       repoTracer = None\<rparr>,
             Tracer = None\<rparr>"
  have "NewIdempotencyHandler env [] = Inr (Inr ?hd)"
    using assms
    by (simp add: NewIdempotencyHandler_def NewIdempotenceRepo_def make_slice_def index_def)
  moreover have "\<forall>rw h w. \<exists>rw' w'. MiddlewareIdempotency ?hd rw h w = Inr (rw', w') \<and> spans w' = spans w"
    using untraced_never_panics [of ?hd] by simp
  ultimately show ?thesis by simp
qed

theorem no_tracer_construction_witness:
  "Getenv env_ok ''IDEMPOTENCE_REDIS_HOST'' \<noteq> [] \<and> Getenv env_ok ''IDEMPOTENCE_REDIS_PORT'' \<noteq> []
   \<and> NewIdempotencyHandler env_ok [] = Inr (Inr untraced)
   \<and> (\<exists>rw' w'. MiddlewareIdempotency untraced \<lparr>status = None\<rparr> post_abc fresh = Inr (rw', w')
         \<and> spans w' = [])"
proof -
  have e: "Getenv env_ok ''IDEMPOTENCE_REDIS_HOST'' \<noteq> []" "Getenv env_ok ''IDEMPOTENCE_REDIS_PORT'' \<noteq> []"
    by (simp_all add: env_ok_def Getenv_def)
  have u: "NewIdempotencyHandler env_ok [] = Inr (Inr untraced)"
    by (simp add: NewIdempotencyHandler_def NewIdempotenceRepo_def make_slice_def index_def
          env_ok_def Getenv_def untraced_def NewClient_def)
  from no_tracer_construction [OF e] u
  have "\<exists>rw' w'. MiddlewareIdempotency untraced \<lparr>status = None\<rparr> post_abc fresh = Inr (rw', w')
         \<and> spans w' = spans fresh"
    by auto
  then show ?thesis using e u by (simp add: fresh_def)
qed

text \<open>
  The older source file \<open>idempontecyService.go\<close> behaves differently. Its constructor
  reads \<open>tracer[0]\<close> of the empty argument list and panics; and a handler built by it
  from one \<open>nil\<close> tracer panics on every request with a protected method, since the
  span is started on the \<open>nil\<close> tracer.
\<close>

lemma service_no_tracer_panics:
  "NewIdempotencyHandler_service env [] = Inl IndexOutOfRange"
  by (simp add: NewIdempotencyHandler_service_def index_def)

lemma service_nil_tracer_constructed:
  "NewIdempotencyHandler_service env_ok [None] = Inr (Inr untraced)"
  by (simp add: NewIdempotencyHandler_service_def NewIdempotenceRepo_def index_def
        env_ok_def Getenv_def untraced_def NewClient_def)

lemma service_nil_tracer_panics:
  assumes "Tracer service = None" and "mutating (Method h)"
  shows "MiddlewareIdempotency_service service rw h w = Inl NilDereference"
  using assms by (simp add: MiddlewareIdempotency_service_def Tracer_Start_def)

subsection \<open>Several requests with the same token\<close>

text \<open>
  Running \<open>gate_step\<close> twice on a request that has just arrived is
  \<open>MiddlewareIdempotency\<close>.
\<close>

lemma gate_step_refines:
  "(case gate_step handler \<lparr>proc_req = h, proc_rw = rw, proc_phase = Arrived\<rparr> w of
      Inl e \<Rightarrow> Inl e
    | Inr (p1, w1) \<Rightarrow>
        (case gate_step handler p1 w1 of
           Inl e \<Rightarrow> Inl e
         | Inr (p2, w2) \<Rightarrow> Inr (proc_rw p2, w2)))
   = MiddlewareIdempotency handler rw h w"
  by (cases "Tracer handler"; cases "repoTracer (repo handler)")
     (auto simp add: gate_step_def end_deferred_def gate_defs repo_defs)

text \<open>
  C1, as stated, fails. The claim is made by two commands, \<open>EXISTS\<close> and then \<open>SET\<close>.
  When two POST requests with the token \<open>abc\<close> alternate (the schedule \<open>0, 1, 0, 1\<close>),
  both existence checks are answered before either write, and both requests are handed
  to the next handler.
\<close>

theorem two_concurrent_claims_both_proceed:
  "interleave untraced [0, 1, 0, 1] [arrive post_abc, arrive post_abc] fresh
     = Inr ([\<lparr>proc_req = post_abc, proc_rw = \<lparr>status = None\<rparr>, proc_phase = Done\<rparr>,
             \<lparr>proc_req = post_abc, proc_rw = \<lparr>status = None\<rparr>, proc_phase = Done\<rparr>],
            fresh\<lparr>kv := [''req:abc'' \<mapsto> \<lparr>entry_value = True, entry_deadline = Some 180000000000\<rparr>],
                  issued := [EXISTS ''req:abc'', EXISTS ''req:abc'',
                             SET ''req:abc'' True (3 * Minute), SET ''req:abc'' True (3 * Minute)],
                  downstream := [post_abc, post_abc]\<rparr>)"
  by (simp add: arrive_def post_abc_def untraced_def fresh_def gate_step_def end_deferred_def
        Header_Get_def IDEMP_HEDER_def next_ServeHTTP_def live_def
        repo_defs mutating_def MethodPost_def constructKey_def three_minutes)

lemma sum_list_nonneg_int: "\<forall>d\<in>set ds. (0::int) \<le> d \<Longrightarrow> 0 \<le> sum_list ds"
  by (induction ds) auto

text \<open>
  Once the token's key is stored with an expiry, requests with that token which all
  arrive before the expiry are answered 200 and none reaches the next handler.
\<close>

lemma serve_claimed:
  assumes m: "mutating (Method h)" and t: "Header_Get (Header h) IDEMP_HEDER \<noteq> []"
  shows "\<forall>n. reach w n \<Longrightarrow>
         kv w (constructKey (Header_Get (Header h) IDEMP_HEDER)) = Some e \<Longrightarrow>
         entry_deadline e = Some D \<Longrightarrow> \<forall>d\<in>set ds. 0 \<le> d \<Longrightarrow> clock w + sum_list ds < D \<Longrightarrow>
         \<exists>w'. serve_all handler (map (\<lambda>d. (d, h)) ds) w
                 = Inr (replicate (length ds) \<lparr>status = Some 200\<rparr>, w')
             \<and> downstream w' = downstream w"
proof (induction ds arbitrary: w)
  case Nil
  then show ?case by simp
next
  case (Cons d ds)
  let ?k = "constructKey (Header_Get (Header h) IDEMP_HEDER)"
  let ?w0 = "advance d w"
  have nn: "0 \<le> sum_list ds" using Cons.prems(4) by (simp add: sum_list_nonneg_int)
  have lv: "live ?w0 ?k"
    using Cons.prems(2,3,5) nn by (simp add: live_def)
  have rc: "reach ?w0 (length (issued ?w0))" using Cons.prems(1) by simp
  from mw_claimed [OF m t rc lv, of handler "\<lparr>status = None\<rparr>"]
  obtain w1 where w1: "MiddlewareIdempotency handler \<lparr>status = None\<rparr> h ?w0
                         = Inr (WriteHeader StatusOK \<lparr>status = None\<rparr>, w1)"
    and f: "downstream w1 = downstream ?w0" "kv w1 = kv ?w0" "clock w1 = clock ?w0"
           "reach w1 = reach ?w0"
    by blast
  have "\<exists>w'. serve_all handler (map (\<lambda>d. (d, h)) ds) w1
                 = Inr (replicate (length ds) \<lparr>status = Some 200\<rparr>, w')
             \<and> downstream w' = downstream w1"
    using Cons.prems f by (intro Cons.IH) auto
  then obtain w' where "serve_all handler (map (\<lambda>d. (d, h)) ds) w1
                 = Inr (replicate (length ds) \<lparr>status = Some 200\<rparr>, w')"
    and "downstream w' = downstream w1" by blast
  then show ?case using w1 f by (simp add: WriteHeader_def StatusOK_def)
qed

text \<open>
  C1, amended. When \<open>N = 1 + length ds\<close> requests with a protected method and the same
  non-empty token are served one after another, the first at a moment when the token's
  key is absent and the others after the delays \<open>ds\<close>, which add up to less than 3
  minutes, on a server that every command reaches, then the first request, and only the
  first, is handed to the next handler, and each of the other \<open>N - 1\<close> is answered 200.
\<close>

theorem sequential_claims_one_proceeds:
  assumes "Method h \<in> {''POST'', ''PUT'', ''PATCH'', ''DELETE''}"
    and t: "Header_Get (Header h) IDEMP_HEDER \<noteq> []"
    and r: "\<forall>n. reach w n"
    and a: "\<not> live w (constructKey (Header_Get (Header h) IDEMP_HEDER))"
    and d: "\<forall>d\<in>set ds. 0 \<le> d" and s: "sum_list ds < 180000000000"
  shows "\<exists>w'. serve_all handler ((0, h) # map (\<lambda>d. (d, h)) ds) w
                 = Inr (\<lparr>status = None\<rparr> # replicate (length ds) \<lparr>status = Some 200\<rparr>, w')
             \<and> downstream w' = downstream w @ [h]"
proof -
  let ?k = "constructKey (Header_Get (Header h) IDEMP_HEDER)"
  have m: "mutating (Method h)"
    using assms(1) by (auto simp: mutating_def MethodPost_def MethodPut_def MethodPatch_def MethodDelete_def)
  have w0: "advance 0 w = w" by (simp add: advance_def)
  have nl: "\<not> (reach w (length (issued w)) \<and> live w ?k)" using a by simp
  from mw_fresh [OF m t nl, of handler "\<lparr>status = None\<rparr>"] r
  obtain w1 where w1: "MiddlewareIdempotency handler \<lparr>status = None\<rparr> h w = Inr (\<lparr>status = None\<rparr>, w1)"
    and f: "downstream w1 = downstream w @ [h]"
      "kv w1 ?k = Some \<lparr>entry_value = True, entry_deadline = Some (clock w + 180000000000)\<rparr>"
      "clock w1 = clock w" "reach w1 = reach w"
    by auto
  have "\<exists>w'. serve_all handler (map (\<lambda>d. (d, h)) ds) w1
                 = Inr (replicate (length ds) \<lparr>status = Some 200\<rparr>, w')
             \<and> downstream w' = downstream w1"
    using r f d s by (intro serve_claimed [OF m t, where D = "clock w + 180000000000"]) auto
  then obtain w' where "serve_all handler (map (\<lambda>d. (d, h)) ds) w1
                 = Inr (replicate (length ds) \<lparr>status = Some 200\<rparr>, w')"
    and "downstream w' = downstream w1" by blast
  then show ?thesis using w1 f(1) by (simp add: w0)
qed

theorem sequential_claims_one_proceeds_witness:
  "\<exists>w'. serve_all traced [(0, post_abc), (10000000000, post_abc), (20000000000, post_abc)] fresh
          = Inr ([\<lparr>status = None\<rparr>, \<lparr>status = Some 200\<rparr>, \<lparr>status = Some 200\<rparr>], w')
      \<and> downstream w' = [post_abc]"
proof -
  have p: "Method post_abc \<in> {''POST'', ''PUT'', ''PATCH'', ''DELETE''}"
    "Header_Get (Header post_abc) IDEMP_HEDER \<noteq> []"
    by (simp_all add: post_abc_def Header_Get_def IDEMP_HEDER_def)
  have f: "\<forall>n. reach fresh n" "\<not> live fresh (constructKey (Header_Get (Header post_abc) IDEMP_HEDER))"
    by (simp_all add: fresh_def live_def)
  have d: "\<forall>d\<in>set [10000000000, 20000000000 :: int]. 0 \<le> d"
    "sum_list [10000000000, 20000000000 :: int] < 180000000000"
    by simp_all
  from sequential_claims_one_proceeds [OF p f d, of traced]
  show ?thesis by (simp add: fresh_def numeral_eq_Suc)
qed

text \<open>
  The scenario of the specification: the key \<open>abc\<close> is posted, posted again 10 seconds
  later, and a third time 181 seconds after that. The first and the third request reach
  the next handler, the second is answered 200.
\<close>

lemma scenario_abc:
  "serve_all untraced
     [(0, post_abc), (10 * 1000000000, post_abc), (181 * 1000000000, post_abc)] fresh
   = Inr ([\<lparr>status = None\<rparr>, \<lparr>status = Some 200\<rparr>, \<lparr>status = None\<rparr>],
          fresh\<lparr>kv := [''req:abc'' \<mapsto> \<lparr>entry_value = True, entry_deadline = Some (371 * 1000000000)\<rparr>],
                clock := 191 * 1000000000,
                issued := [EXISTS ''req:abc'', SET ''req:abc'' True (3 * Minute),
                           EXISTS ''req:abc'',
                           EXISTS ''req:abc'', SET ''req:abc'' True (3 * Minute)],
                downstream := [post_abc, post_abc]\<rparr>)"
  by (simp add: post_abc_def untraced_def fresh_def advance_def WriteHeader_def StatusOK_def
        Header_Get_def IDEMP_HEDER_def gate_defs live_def
        repo_defs mutating_def MethodPost_def constructKey_def three_minutes)

end
